theory Spec2Isabelle
  imports Main "HOL-Library.Word"
begin

section \<open>The transfer snapshot of the backend (slskd/client.go)\<close>

text \<open>
  What \<^verbatim>\<open>GetAllDownloads\<close> returns: transfers grouped by user, then by directory. The field
  \<^verbatim>\<open>AverageSpeed float64\<close> of \<^verbatim>\<open>Transfer\<close> is read by nothing that is modelled here and is
  left out.
\<close>

record Transfer =
  ID :: string
  Username :: string
  Direction :: string
  Filename :: string
  Size :: "64 word"
  BytesTransferred :: "64 word"
  State :: string

record DirectoryTransferGroup =
  Directory :: string
  Files :: "Transfer list"

record UserTransferGroup =
  Username :: string
  Directories :: "DirectoryTransferGroup list"

section \<open>The download store (store/store.go)\<close>

text \<open>
  \<^verbatim>\<open>type Status string\<close> with its four constants. The Go type is an open string type,
  so a status is modelled as a string and the four constants as the strings they are.
\<close>

type_synonym Status = string

definition StatusQueued :: Status where
  "StatusQueued = ''Queued''"

definition StatusDownloading :: Status where
  "StatusDownloading = ''Downloading''"

definition StatusCompleted :: Status where
  "StatusCompleted = ''Completed''"

definition StatusFailed :: Status where
  "StatusFailed = ''Failed''"

text \<open>
  A \<^verbatim>\<open>time.Time\<close> is an instant, counted in nanoseconds from the zero instant of the
  type; \<^verbatim>\<open>IsZero\<close> recognises the zero instant, which is also the zero value of the type.
\<close>

type_synonym Time = int

definition IsZero :: "Time \<Rightarrow> bool" where
  "IsZero t = (t = 0)"

text \<open>
  The struct \<^verbatim>\<open>Download\<close>. \<^verbatim>\<open>int64\<close> and \<^verbatim>\<open>int\<close> (64 bits on the build target) are
  64-bit words read as signed numbers.
\<close>

record Download =
  ID :: string
  Username :: string
  Filename :: string
  Size :: "64 word"
  BytesDownloaded :: "64 word"
  Category :: string
  Status :: Status
  AddedAt :: Time
  CompletedAt :: Time
  Retries :: "64 word"
  MaxRetries :: "64 word"
  TransferID :: string

text \<open>The field \<^verbatim>\<open>downloads map[string]*Download\<close> of the struct \<^verbatim>\<open>Store\<close>.\<close>

type_synonym Store = "string \<rightharpoonup> Download"

definition New :: Store where
  "New = Map.empty"

text \<open>
  \<^verbatim>\<open>generateID\<close> formats the eight bytes read from the random source; the bytes are an
  input of the model. \<^verbatim>\<open>hex.EncodeToString\<close> writes two lower-case digits for each byte.
\<close>

definition hexdigit :: "nat \<Rightarrow> char" where
  "hexdigit n = ''0123456789abcdef'' ! (n mod 16)"

definition hexEncodeToString :: "8 word list \<Rightarrow> string" where
  "hexEncodeToString bs = concat (map (\<lambda>b. [hexdigit (unat b div 16), hexdigit (unat b mod 16)]) bs)"

definition generateID :: "8 word list \<Rightarrow> string" where
  "generateID b = ''SABnzbd_nzo_'' @ hexEncodeToString b"

text \<open>
  \<^verbatim>\<open>Add\<close>: the random bytes and the clock reading are inputs. The new entry is stored
  under the generated id, whatever was stored there before; every field that the
  composite literal leaves out has its zero value.
\<close>

definition Add :: "Store \<Rightarrow> 8 word list \<Rightarrow> Time \<Rightarrow> string \<Rightarrow> string \<Rightarrow> 64 word \<Rightarrow> string \<Rightarrow> Store \<times> string" where
  "Add s rnd now username filename sz category =
     (let ident = generateID rnd in
      (s(ident \<mapsto> \<lparr>Download.ID = ident, Username = username, Filename = filename, Size = sz,
                  BytesDownloaded = 0, Category = category, Status = StatusQueued,
                  AddedAt = now, CompletedAt = 0, Retries = 0, MaxRetries = 3,
                  TransferID = []\<rparr>), ident))"

text \<open>\<^verbatim>\<open>Get\<close> returns a copy of the entry, or nil.\<close>

definition Get :: "Store \<Rightarrow> string \<Rightarrow> Download option" where
  "Get s ident = s ident"

text \<open>\<^verbatim>\<open>UpdateTransfer\<close>; the clock reading \<^verbatim>\<open>time.Now()\<close> is an input.\<close>

definition UpdateTransfer :: "Store \<Rightarrow> Time \<Rightarrow> string \<Rightarrow> 64 word \<Rightarrow> Status \<Rightarrow> Store" where
  "UpdateTransfer s now ident bytesDownloaded status =
     (case s ident of
        None \<Rightarrow> s
      | Some dl \<Rightarrow>
          (let dl1 = dl\<lparr>BytesDownloaded := bytesDownloaded, Status := status\<rparr> in
           if (status = StatusCompleted \<or> status = StatusFailed) \<and> IsZero (CompletedAt dl1)
           then s(ident \<mapsto> dl1\<lparr>CompletedAt := now\<rparr>)
           else s(ident \<mapsto> dl1)))"

text \<open>
  \<^verbatim>\<open>IncrementRetry\<close>: the new store and the returned flag. \<^verbatim>\<open>dl.Retries++\<close> wraps around
  as a 64-bit addition does, and the comparison is the signed one.
\<close>

definition IncrementRetry :: "Store \<Rightarrow> string \<Rightarrow> Store \<times> bool" where
  "IncrementRetry s ident =
     (case s ident of
        None \<Rightarrow> (s, False)
      | Some dl \<Rightarrow>
          (let dl1 = dl\<lparr>Retries := Retries dl + 1\<rparr> in
           if MaxRetries dl1 <s Retries dl1 then (s(ident \<mapsto> dl1), False)
           else (s(ident \<mapsto> dl1\<lparr>Status := StatusQueued, BytesDownloaded := 0, CompletedAt := 0\<rparr>),
                 True)))"

definition SetTransferID :: "Store \<Rightarrow> string \<Rightarrow> string \<Rightarrow> Store" where
  "SetTransferID s ident transferID =
     (case s ident of None \<Rightarrow> s | Some dl \<Rightarrow> s(ident \<mapsto> dl\<lparr>TransferID := transferID\<rparr>))"

definition Remove :: "Store \<Rightarrow> string \<Rightarrow> Store" where
  "Remove s ident = s(ident := None)"

text \<open>
  \<^verbatim>\<open>for _, dl := range s.downloads\<close> visits every entry once, in an order the runtime
  chooses. The order is an input of the model: a list \<open>ks\<close> of the keys.
\<close>

definition iteration_order :: "Store \<Rightarrow> string list \<Rightarrow> bool" where
  "iteration_order s ks = (distinct ks \<and> set ks = dom s)"

text \<open>\<^verbatim>\<open>All\<close> (the name alone is taken in HOL).\<close>

definition All_store :: "Store \<Rightarrow> string list \<Rightarrow> Download list" where
  "All_store s ks = List.map_filter s ks"

definition Queue :: "Store \<Rightarrow> string list \<Rightarrow> Download list" where
  "Queue s ks =
     filter (\<lambda>dl. Status dl = StatusQueued \<or> Status dl = StatusDownloading) (List.map_filter s ks)"

definition History :: "Store \<Rightarrow> string list \<Rightarrow> Download list" where
  "History s ks =
     filter (\<lambda>dl. Status dl = StatusCompleted \<or> Status dl = StatusFailed) (List.map_filter s ks)"

definition FindByFile :: "Store \<Rightarrow> string list \<Rightarrow> string \<Rightarrow> string \<Rightarrow> Download option" where
  "FindByFile s ks username filename =
     List.find (\<lambda>dl. Download.Username dl = username \<and> Download.Filename dl = filename) (List.map_filter s ks)"

text \<open>
  The operations that change a store, as data, and a store after a sequence of them.
  \<^verbatim>\<open>UpdateTransfer\<close> accepts every string as a status; \<open>valid_op\<close> holds of the calls
  whose status is one of the four constants.
\<close>

datatype op =
    OpAdd "8 word list" Time string string "64 word" string
  | OpUpdateTransfer Time string "64 word" Status
  | OpIncrementRetry string
  | OpSetTransferID string string
  | OpRemove string

fun apply_op :: "Store \<Rightarrow> op \<Rightarrow> Store" where
  "apply_op s (OpAdd rnd now username filename sz category) =
     fst (Add s rnd now username filename sz category)"
| "apply_op s (OpUpdateTransfer now ident bytesDownloaded status) =
     UpdateTransfer s now ident bytesDownloaded status"
| "apply_op s (OpIncrementRetry ident) = fst (IncrementRetry s ident)"
| "apply_op s (OpSetTransferID ident transferID) = SetTransferID s ident transferID"
| "apply_op s (OpRemove ident) = Remove s ident"

definition exec :: "Store \<Rightarrow> op list \<Rightarrow> Store" where
  "exec s ops = foldl apply_op s ops"

definition known_status :: "Status \<Rightarrow> bool" where
  "known_status st =
     (st = StatusQueued \<or> st = StatusDownloading \<or> st = StatusCompleted \<or> st = StatusFailed)"

fun valid_op :: "op \<Rightarrow> bool" where
  "valid_op (OpUpdateTransfer now ident bytesDownloaded status) = known_status status"
| "valid_op _ = True"

text \<open>
  An operation that puts another entry, or none, under the id \<open>k\<close>: \<^verbatim>\<open>Remove\<close> of \<open>k\<close>, and an
  \<^verbatim>\<open>Add\<close> whose generated id is \<open>k\<close>.
\<close>

fun replaces :: "string \<Rightarrow> op \<Rightarrow> bool" where
  "replaces k (OpAdd rnd now username filename sz category) = (generateID rnd = k)"
| "replaces k (OpRemove ident) = (ident = k)"
| "replaces k _ = False"

definition retries_of :: "string \<Rightarrow> op list \<Rightarrow> nat" where
  "retries_of k ops = length (filter (\<lambda>x. x = OpIncrementRetry k) ops)"

text \<open>
  What holds of every store that the operations build: an entry is stored under its own
  id, and (when every status passed to \<^verbatim>\<open>UpdateTransfer\<close> is one of the four constants) its
  status is one of the four constants.
\<close>

definition keyed :: "Store \<Rightarrow> bool" where
  "keyed s = (\<forall>k d. s k = Some d \<longrightarrow> Download.ID d = k)"

definition store_inv :: "Store \<Rightarrow> bool" where
  "store_inv s = (\<forall>k d. s k = Some d \<longrightarrow> Download.ID d = k \<and> known_status (Status d))"

section \<open>The reconciliation pass (sabnzbd/handler.go)\<close>

text \<open>\<^verbatim>\<open>strings.Contains\<close>: some suffix of \<open>s\<close> starts with \<open>substr\<close>.\<close>

fun Contains :: "string \<Rightarrow> string \<Rightarrow> bool" where
  "Contains [] substr = (substr = [])"
| "Contains (c # cs) substr = (take (length substr) (c # cs) = substr \<or> Contains cs substr)"

text \<open>The \<^verbatim>\<open>switch\<close> of \<^verbatim>\<open>syncOnce\<close> that computes \<^verbatim>\<open>newStatus\<close> from \<^verbatim>\<open>t.State\<close>.\<close>

definition newStatus :: "string \<Rightarrow> Status" where
  "newStatus st =
     (if Contains st ''Completed'' \<and> Contains st ''Succeeded'' then StatusCompleted
      else if Contains st ''Completed'' then StatusFailed
      else if Contains st ''InProgress'' then StatusDownloading
      else StatusQueued)"

text \<open>
  The map \<^verbatim>\<open>transfers\<close> that \<^verbatim>\<open>syncOnce\<close> builds with its three nested loops: the key is
  the user name of the group and the file name of the transfer; a later file with the
  same key takes the place of an earlier one.
\<close>

type_synonym transferKey = "string \<times> string"

definition transfers :: "UserTransferGroup list \<Rightarrow> (transferKey \<rightharpoonup> Transfer)" where
  "transfers groups =
     foldl (\<lambda>m g.
        foldl (\<lambda>m d.
           foldl (\<lambda>m t. m((UserTransferGroup.Username g, Transfer.Filename t) \<mapsto> t)) m (Files d))
          m (Directories g))
       Map.empty groups"

text \<open>
  One turn of the loop over \<^verbatim>\<open>h.Store.All()\<close>: \<open>dl\<close> is the copy taken by \<^verbatim>\<open>All\<close>, \<open>s\<close> the
  store as the turns before have left it, \<open>now\<close> the clock reading of \<^verbatim>\<open>UpdateTransfer\<close>.
\<close>

definition sync_entry :: "(transferKey \<rightharpoonup> Transfer) \<Rightarrow> Time \<Rightarrow> Download \<Rightarrow> Store \<Rightarrow> Store" where
  "sync_entry tr now dl s =
     (if Status dl = StatusCompleted \<or> Status dl = StatusFailed then s
      else case tr (Download.Username dl, Download.Filename dl) of
             None \<Rightarrow> s
           | Some t \<Rightarrow> UpdateTransfer s now (Download.ID dl) (BytesTransferred t) (newStatus (State t)))"

text \<open>The loop; the \<open>n\<close>-th turn reads the clock as \<open>clock n\<close>.\<close>

fun sync_entries :: "(transferKey \<rightharpoonup> Transfer) \<Rightarrow> (nat \<Rightarrow> Time) \<Rightarrow> nat \<Rightarrow> Download list \<Rightarrow> Store \<Rightarrow> Store" where
  "sync_entries tr clock n [] s = s"
| "sync_entries tr clock n (dl # dls) s = sync_entries tr clock (Suc n) dls (sync_entry tr (clock n) dl s)"

text \<open>
  \<^verbatim>\<open>syncOnce\<close>, run with no other access to the store in between. \<open>resp\<close> is what
  \<^verbatim>\<open>GetAllDownloads\<close> returned: an error (the pass logs it and returns) or the groups.
\<close>

definition syncOnce :: "Store \<Rightarrow> string list \<Rightarrow> (nat \<Rightarrow> Time) \<Rightarrow> string + UserTransferGroup list \<Rightarrow> Store" where
  "syncOnce s ks clock resp =
     (case resp of
        Inl err \<Rightarrow> s
      | Inr groups \<Rightarrow> sync_entries (transfers groups) clock 0 (All_store s ks) s)"

text \<open>
  The files of a snapshot, each with the user name of its group, and the question whether
  one of them has the user name and the file name of the entry \<open>dl\<close>.
\<close>

definition snapshot_files :: "UserTransferGroup list \<Rightarrow> (string \<times> Transfer) list" where
  "snapshot_files groups =
     concat (map (\<lambda>g. concat (map (\<lambda>d. map (\<lambda>t. (UserTransferGroup.Username g, t)) (Files d))
                                    (Directories g))) groups)"

definition has_match :: "UserTransferGroup list \<Rightarrow> Download \<Rightarrow> bool" where
  "has_match groups dl =
     list_ex (\<lambda>(u, t). u = Download.Username dl \<and> Transfer.Filename t = Download.Filename dl)
       (snapshot_files groups)"

text \<open>The words of the specification: \<open>s\<close> contains \<open>substr\<close>.\<close>

definition is_substring :: "string \<Rightarrow> string \<Rightarrow> bool" where
  "is_substring substr s = (\<exists>ps ss. s = ps @ substr @ ss)"

section \<open>Properties of the store\<close>

subsection \<open>A store with one entry, for the examples\<close>

lemma generateID_example:
  "generateID [0,1,2,3,4,5,6,7] = ''SABnzbd_nzo_0001020304050607''"
  by (simp add: generateID_def hexEncodeToString_def hexdigit_def)

lemma example_store:
  "exec New [OpAdd [0,1,2,3,4,5,6,7] 5 ''u1'' ''dir/file.mkv'' 1000 ''radarr'',
             OpUpdateTransfer 6 ''SABnzbd_nzo_0001020304050607'' 1000 StatusCompleted] =
   [''SABnzbd_nzo_0001020304050607'' \<mapsto>
      \<lparr>Download.ID = ''SABnzbd_nzo_0001020304050607'', Username = ''u1'',
       Filename = ''dir/file.mkv'', Size = 1000, BytesDownloaded = 1000, Category = ''radarr'',
       Status = StatusCompleted, AddedAt = 5, CompletedAt = 6, Retries = 0, MaxRetries = 3,
       TransferID = []\<rparr>]"
  by (simp add: exec_def New_def Add_def Let_def UpdateTransfer_def generateID_example IsZero_def)

lemma example_store_added:
  "exec New [OpAdd [0,1,2,3,4,5,6,7] 5 ''u1'' ''dir/file.mkv'' 1000 ''radarr''] =
   [''SABnzbd_nzo_0001020304050607'' \<mapsto>
      \<lparr>Download.ID = ''SABnzbd_nzo_0001020304050607'', Username = ''u1'',
       Filename = ''dir/file.mkv'', Size = 1000, BytesDownloaded = 0, Category = ''radarr'',
       Status = StatusQueued, AddedAt = 5, CompletedAt = 0, Retries = 0, MaxRetries = 3,
       TransferID = []\<rparr>]"
  by (simp add: exec_def New_def Add_def Let_def generateID_example)

lemma exec_Nil: "exec s [] = s"
  by (simp add: exec_def)

lemma exec_Cons: "exec s (x # ops) = exec (apply_op s x) ops"
  by (simp add: exec_def)

subsection \<open>Retry\<close>

lemma apply_op_retries:
  assumes "s k = Some d" "\<not> replaces k x"
  shows "\<exists>d'. apply_op s x k = Some d' \<and> MaxRetries d' = MaxRetries d
           \<and> Retries d' = Retries d + (if x = OpIncrementRetry k then 1 else 0)"
  using assms
  by (cases x) (auto simp: Add_def UpdateTransfer_def IncrementRetry_def SetTransferID_def
      Remove_def Let_def split: option.splits)


lemma exec_retries:
  assumes "s k = Some d" "\<not> list_ex (replaces k) ops"
  shows "\<exists>d'. exec s ops k = Some d' \<and> MaxRetries d' = MaxRetries d
           \<and> Retries d' = Retries d + of_nat (retries_of k ops)"
  using assms
proof (induction ops arbitrary: s d)
  case Nil
  then show ?case by (simp add: exec_Nil retries_of_def)
next
  case (Cons x ops)
  from Cons.prems have nr: "\<not> replaces k x" and nrs: "\<not> list_ex (replaces k) ops" by simp_all
  from apply_op_retries[of s k d x] Cons.prems(1) nr obtain d1 where
    d1: "apply_op s x k = Some d1" "MaxRetries d1 = MaxRetries d"
      "Retries d1 = Retries d + (if x = OpIncrementRetry k then 1 else 0)" by blast
  from Cons.IH[of "apply_op s x" d1] d1(1) nrs obtain d' where
    d': "exec (apply_op s x) ops k = Some d'" "MaxRetries d' = MaxRetries d1"
      "Retries d' = Retries d1 + of_nat (retries_of k ops)" by blast
  show ?case using d1 d' by (auto simp: exec_Cons retries_of_def)
qed

lemma Add_entry:
  "Add s rnd now u f sz c = (s1, k) \<Longrightarrow>
   \<exists>d. s1 k = Some d \<and> Retries d = 0 \<and> MaxRetries d = 3 \<and> Status d = StatusQueued \<and> ID d = k"
  by (auto simp: Add_def Let_def)

lemma IncrementRetry_present:
  assumes "s k = Some dl"
  shows "IncrementRetry s k =
     (if MaxRetries dl <s Retries dl + 1 then (s(k \<mapsto> dl\<lparr>Retries := Retries dl + 1\<rparr>), False)
      else (s(k \<mapsto> dl\<lparr>Retries := Retries dl + 1, Status := StatusQueued,
              BytesDownloaded := 0, CompletedAt := 0\<rparr>), True))"
  using assms by (simp add: IncrementRetry_def Let_def)

lemma small_retries: "n < 3 \<Longrightarrow> \<not> (3::64 word) <s of_nat n + 1"
proof -
  assume "n < 3"
  then consider "n = 0" | "n = 1" | "n = 2" by linarith
  then show ?thesis by cases (simp_all add: word_sless_alt)
qed

lemma retry_allowed:
  assumes "Add s0 rnd now u f sz c = (s1, k)" "\<not> list_ex (replaces k) ops" "retries_of k ops < 3"
  shows "snd (IncrementRetry (exec s1 ops) k)"
proof -
  from assms(1) obtain d where d: "s1 k = Some d" "Retries d = 0" "MaxRetries d = 3"
    using Add_entry by blast
  from exec_retries[of s1 k d ops] assms(2) obtain d' where
    d': "exec s1 ops k = Some d'" "MaxRetries d' = 3" "Retries d' = of_nat (retries_of k ops)"
    using d by auto
  show ?thesis
    using assms(3) d' small_retries[of "retries_of k ops"] by (simp add: IncrementRetry_present)
qed

lemma retry_exhausted:
  assumes "Add s0 rnd now u f sz c = (s1, k)" "\<not> list_ex (replaces k) ops" "retries_of k ops = 3"
  shows "\<not> snd (IncrementRetry (exec s1 ops) k) \<and>
      map_option Status (fst (IncrementRetry (exec s1 ops) k) k) = map_option Status (exec s1 ops k)"
proof -
  from assms(1) obtain d where d: "s1 k = Some d" "Retries d = 0" "MaxRetries d = 3"
    using Add_entry by blast
  from exec_retries[of s1 k d ops] assms(2) obtain d' where
    d': "exec s1 ops k = Some d'" "MaxRetries d' = 3" "Retries d' = of_nat (retries_of k ops)"
    using d by auto
  show ?thesis
    using assms(3) d' by (simp add: IncrementRetry_present word_sless_alt)
qed

text \<open>
  C2: when an entry is stored under the id, \<^verbatim>\<open>IncrementRetry\<close> adds one to its retry count
  (a 64-bit addition); if the new count exceeds \<^verbatim>\<open>MaxRetries\<close> (signed comparison) it
  returns false and changes nothing else, the status included; otherwise it sets the status
  to Queued, the transferred bytes to 0, clears \<^verbatim>\<open>CompletedAt\<close> and returns true. For
  an entry that \<^verbatim>\<open>Add\<close> created (\<^verbatim>\<open>MaxRetries\<close> 3), whatever other operations come in
  between as long as none removes or replaces the entry: after fewer than three retries the
  next one is allowed, and after three the fourth returns false and leaves the status as it
  was before that call.
\<close>

theorem retry_spec:
  "(s k = Some dl \<longrightarrow>
      IncrementRetry s k =
        (if MaxRetries dl <s Retries dl + 1
         then (s(k \<mapsto> dl\<lparr>Retries := Retries dl + 1\<rparr>), False)
         else (s(k \<mapsto> dl\<lparr>Retries := Retries dl + 1, Status := StatusQueued,
                 BytesDownloaded := 0, CompletedAt := 0\<rparr>), True))) \<and>
   (Add s0 rnd now u f sz c = (s1, k') \<and> \<not> list_ex (replaces k') ops \<and> retries_of k' ops < 3 \<longrightarrow>
      snd (IncrementRetry (exec s1 ops) k')) \<and>
   (Add s0 rnd now u f sz c = (s1, k') \<and> \<not> list_ex (replaces k') ops \<and> retries_of k' ops = 3 \<longrightarrow>
      \<not> snd (IncrementRetry (exec s1 ops) k') \<and>
      map_option Status (fst (IncrementRetry (exec s1 ops) k') k') = map_option Status (exec s1 ops k'))"
  using IncrementRetry_present[of s k dl] retry_allowed[of s0 rnd now u f sz c s1 k' ops]
    retry_exhausted[of s0 rnd now u f sz c s1 k' ops]
  by blast

theorem retry_spec_witness:
  "exec New [OpAdd [0,1,2,3,4,5,6,7] 5 ''u1'' ''dir/file.mkv'' 1000 ''radarr'']
     ''SABnzbd_nzo_0001020304050607'' =
     Some \<lparr>Download.ID = ''SABnzbd_nzo_0001020304050607'', Username = ''u1'',
       Filename = ''dir/file.mkv'', Size = 1000, BytesDownloaded = 0, Category = ''radarr'',
       Status = StatusQueued, AddedAt = 5, CompletedAt = 0, Retries = 0, MaxRetries = 3,
       TransferID = []\<rparr> \<and>
   snd (IncrementRetry (exec New [OpAdd [0,1,2,3,4,5,6,7] 5 ''u1'' ''dir/file.mkv'' 1000 ''radarr''])
     ''SABnzbd_nzo_0001020304050607'') \<and>
   Add New [0,1,2,3,4,5,6,7] 5 ''u1'' ''dir/file.mkv'' 1000 ''radarr'' =
     (exec New [OpAdd [0,1,2,3,4,5,6,7] 5 ''u1'' ''dir/file.mkv'' 1000 ''radarr''],
      ''SABnzbd_nzo_0001020304050607'') \<and>
   \<not> list_ex (replaces ''SABnzbd_nzo_0001020304050607'')
     [OpIncrementRetry ''SABnzbd_nzo_0001020304050607'',
      OpUpdateTransfer 9 ''SABnzbd_nzo_0001020304050607'' 10 StatusFailed,
      OpIncrementRetry ''SABnzbd_nzo_0001020304050607'',
      OpIncrementRetry ''SABnzbd_nzo_0001020304050607''] \<and>
   retries_of ''SABnzbd_nzo_0001020304050607''
     [OpIncrementRetry ''SABnzbd_nzo_0001020304050607'',
      OpUpdateTransfer 9 ''SABnzbd_nzo_0001020304050607'' 10 StatusFailed,
      OpIncrementRetry ''SABnzbd_nzo_0001020304050607'',
      OpIncrementRetry ''SABnzbd_nzo_0001020304050607''] = 3 \<and>
   \<not> snd (IncrementRetry
     (exec (exec New [OpAdd [0,1,2,3,4,5,6,7] 5 ''u1'' ''dir/file.mkv'' 1000 ''radarr''])
       [OpIncrementRetry ''SABnzbd_nzo_0001020304050607'',
        OpUpdateTransfer 9 ''SABnzbd_nzo_0001020304050607'' 10 StatusFailed,
        OpIncrementRetry ''SABnzbd_nzo_0001020304050607'',
        OpIncrementRetry ''SABnzbd_nzo_0001020304050607''])
     ''SABnzbd_nzo_0001020304050607'') \<and>
   retries_of ''SABnzbd_nzo_0001020304050607''
     [OpIncrementRetry ''SABnzbd_nzo_0001020304050607'',
      OpUpdateTransfer 9 ''SABnzbd_nzo_0001020304050607'' 10 StatusFailed] < 3 \<and>
   snd (IncrementRetry
     (exec (exec New [OpAdd [0,1,2,3,4,5,6,7] 5 ''u1'' ''dir/file.mkv'' 1000 ''radarr''])
       [OpIncrementRetry ''SABnzbd_nzo_0001020304050607'',
        OpUpdateTransfer 9 ''SABnzbd_nzo_0001020304050607'' 10 StatusFailed])
     ''SABnzbd_nzo_0001020304050607'')"
proof -
  let ?k = "''SABnzbd_nzo_0001020304050607''"
  let ?s1 = "exec New [OpAdd [0,1,2,3,4,5,6,7] 5 ''u1'' ''dir/file.mkv'' 1000 ''radarr'']"
  let ?d1 = "\<lparr>Download.ID = ?k, Username = ''u1'',
       Filename = ''dir/file.mkv'', Size = 1000, BytesDownloaded = 0, Category = ''radarr'',
       Status = StatusQueued, AddedAt = 5, CompletedAt = 0, Retries = 0, MaxRetries = 3,
       TransferID = []\<rparr>"
  let ?ops = "[OpIncrementRetry ?k, OpUpdateTransfer 9 ?k 10 StatusFailed,
    OpIncrementRetry ?k, OpIncrementRetry ?k]"
  let ?ops2 = "[OpIncrementRetry ?k, OpUpdateTransfer 9 ?k 10 StatusFailed]"
  have h0: "?s1 ?k = Some ?d1" by (simp add: example_store_added)
  have h1: "Add New [0,1,2,3,4,5,6,7] 5 ''u1'' ''dir/file.mkv'' 1000 ''radarr'' = (?s1, ?k)"
    by (simp add: exec_def Add_def Let_def generateID_example)
  have h2: "\<not> list_ex (replaces ?k) ?ops" by simp
  have h3: "retries_of ?k ?ops = 3" by (simp add: retries_of_def)
  have h4: "\<not> list_ex (replaces ?k) ?ops2" by simp
  have h5: "retries_of ?k ?ops2 < 3" by (simp add: retries_of_def)
  from retry_spec[where s="?s1" and k="?k" and dl="?d1"] h0
  have c1: "snd (IncrementRetry ?s1 ?k)" by (simp add: word_sless_alt)
  from retry_spec[where ?s0.0=New and rnd="[0,1,2,3,4,5,6,7]" and now=5 and u="''u1''"
     and f="''dir/file.mkv''" and sz=1000 and c="''radarr''" and ?s1.0="?s1"
     and k'="?k" and ops="?ops"] h1 h2 h3
  have c3: "\<not> snd (IncrementRetry (exec ?s1 ?ops) ?k)" by blast
  from retry_spec[where ?s0.0=New and rnd="[0,1,2,3,4,5,6,7]" and now=5 and u="''u1''"
     and f="''dir/file.mkv''" and sz=1000 and c="''radarr''" and ?s1.0="?s1"
     and k'="?k" and ops="?ops2"] h1 h4 h5
  have c2: "snd (IncrementRetry (exec ?s1 ?ops2) ?k)" by blast
  from h0 c1 h1 h2 h3 c3 h5 c2 show ?thesis by blast
qed

text \<open>
  C10: when no entry is stored under the id, \<^verbatim>\<open>IncrementRetry\<close> returns false and the
  store it leaves is the store it found: no entry is created and no field of any entry,
  a retry count included, is changed.
\<close>

theorem IncrementRetry_absent:
  "s ident = None \<Longrightarrow> IncrementRetry s ident = (s, False)"
  by (simp add: IncrementRetry_def)

theorem IncrementRetry_absent_witness:
  "New ''SABnzbd_nzo_0001020304050607'' = None \<and>
   IncrementRetry New ''SABnzbd_nzo_0001020304050607'' = (New, False)"
  using IncrementRetry_absent[of New "''SABnzbd_nzo_0001020304050607''"]
  by (simp add: New_def)

subsection \<open>Progress updates and the completion stamp\<close>

lemma UpdateTransfer_absent: "s k = None \<Longrightarrow> UpdateTransfer s now k b st = s"
  by (simp add: UpdateTransfer_def)

lemma UpdateTransfer_present:
  "s k = Some dl \<Longrightarrow> UpdateTransfer s now k b st =
     s(k \<mapsto> dl\<lparr>BytesDownloaded := b, Status := st,
          CompletedAt := (if (st = StatusCompleted \<or> st = StatusFailed) \<and> IsZero (CompletedAt dl)
                          then now else CompletedAt dl)\<rparr>)"
  by (simp add: UpdateTransfer_def Let_def)

lemma apply_op_CompletedAt:
  assumes "s k = Some dl" "\<not> IsZero (CompletedAt dl)" "\<not> replaces k x"
    "\<not> (x = OpIncrementRetry k \<and> snd (IncrementRetry s k))"
  shows "\<exists>dl'. apply_op s x k = Some dl' \<and> CompletedAt dl' = CompletedAt dl"
  using assms
  by (cases x)
     (auto simp: Add_def UpdateTransfer_def IncrementRetry_def SetTransferID_def
        Remove_def Let_def split: option.splits if_splits)

lemma exec_CompletedAt:
  assumes "s k = Some dl" "\<not> IsZero (CompletedAt dl)" "\<not> list_ex (replaces k) ops"
    "OpIncrementRetry k \<notin> set ops"
  shows "\<exists>dl'. exec s ops k = Some dl' \<and> CompletedAt dl' = CompletedAt dl"
  using assms
proof (induction ops arbitrary: s dl)
  case Nil
  then show ?case by (simp add: exec_Nil)
next
  case (Cons x ops)
  from apply_op_CompletedAt[of s k dl x] Cons.prems obtain d1 where
    d1: "apply_op s x k = Some d1" "CompletedAt d1 = CompletedAt dl" by auto
  from Cons.IH[of "apply_op s x" d1] d1 Cons.prems show ?case by (auto simp: exec_Cons)
qed

text \<open>
  C3: \<^verbatim>\<open>UpdateTransfer\<close> leaves the store as it is when no entry has the id; otherwise it
  overwrites the transferred bytes and the status, and (the clock never reading the zero
  instant) it changes \<^verbatim>\<open>CompletedAt\<close> exactly when the new status is Completed or Failed
  and \<^verbatim>\<open>CompletedAt\<close> was unset. Once set, \<^verbatim>\<open>CompletedAt\<close> keeps its value through every
  sequence of operations that holds no retry of the entry and does not remove or replace
  the entry, and through every single operation other than an allowed retry of the entry.
\<close>

theorem UpdateTransfer_spec:
  "(s k = None \<longrightarrow> UpdateTransfer s now k b st = s) \<and>
   (s k = Some dl \<longrightarrow>
      UpdateTransfer s now k b st =
        s(k \<mapsto> dl\<lparr>BytesDownloaded := b, Status := st,
             CompletedAt := (if (st = StatusCompleted \<or> st = StatusFailed) \<and> IsZero (CompletedAt dl)
                             then now else CompletedAt dl)\<rparr>)) \<and>
   (s k = Some dl \<and> \<not> IsZero now \<longrightarrow>
      (map_option CompletedAt (UpdateTransfer s now k b st k) \<noteq> Some (CompletedAt dl)) =
      ((st = StatusCompleted \<or> st = StatusFailed) \<and> IsZero (CompletedAt dl))) \<and>
   (s k = Some dl \<and> \<not> IsZero (CompletedAt dl) \<and> \<not> list_ex (replaces k) ops \<and>
    OpIncrementRetry k \<notin> set ops \<longrightarrow>
      map_option CompletedAt (exec s ops k) = Some (CompletedAt dl)) \<and>
   (s k = Some dl \<and> \<not> IsZero (CompletedAt dl) \<and> \<not> replaces k x \<and>
    \<not> (x = OpIncrementRetry k \<and> snd (IncrementRetry s k)) \<longrightarrow>
      map_option CompletedAt (apply_op s x k) = Some (CompletedAt dl))"
proof -
  have c3: "s k = Some dl \<and> \<not> IsZero now \<longrightarrow>
      (map_option CompletedAt (UpdateTransfer s now k b st k) \<noteq> Some (CompletedAt dl)) =
      ((st = StatusCompleted \<or> st = StatusFailed) \<and> IsZero (CompletedAt dl))"
    by (auto simp: UpdateTransfer_present IsZero_def)
  have c4: "s k = Some dl \<and> \<not> IsZero (CompletedAt dl) \<and> \<not> list_ex (replaces k) ops \<and>
    OpIncrementRetry k \<notin> set ops \<longrightarrow>
      map_option CompletedAt (exec s ops k) = Some (CompletedAt dl)"
    using exec_CompletedAt[of s k dl ops] by auto
  have c5: "s k = Some dl \<and> \<not> IsZero (CompletedAt dl) \<and> \<not> replaces k x \<and>
    \<not> (x = OpIncrementRetry k \<and> snd (IncrementRetry s k)) \<longrightarrow>
      map_option CompletedAt (apply_op s x k) = Some (CompletedAt dl)"
    using apply_op_CompletedAt[of s k dl x] by auto
  from UpdateTransfer_absent[of s k now b st] UpdateTransfer_present[of s k dl now b st] c3 c4 c5
  show ?thesis by blast
qed

theorem UpdateTransfer_spec_witness:
  "New ''SABnzbd_nzo_0001020304050607'' = None \<and>
   UpdateTransfer New 6 ''SABnzbd_nzo_0001020304050607'' 1000 StatusCompleted = New \<and>
   exec New [OpAdd [0,1,2,3,4,5,6,7] 5 ''u1'' ''dir/file.mkv'' 1000 ''radarr'']
     ''SABnzbd_nzo_0001020304050607'' =
     Some \<lparr>Download.ID = ''SABnzbd_nzo_0001020304050607'', Username = ''u1'',
       Filename = ''dir/file.mkv'', Size = 1000, BytesDownloaded = 0, Category = ''radarr'',
       Status = StatusQueued, AddedAt = 5, CompletedAt = 0, Retries = 0, MaxRetries = 3,
       TransferID = []\<rparr> \<and>
   \<not> IsZero 6 \<and>
   UpdateTransfer (exec New [OpAdd [0,1,2,3,4,5,6,7] 5 ''u1'' ''dir/file.mkv'' 1000 ''radarr''])
       6 ''SABnzbd_nzo_0001020304050607'' 1000 StatusCompleted ''SABnzbd_nzo_0001020304050607'' =
     Some \<lparr>Download.ID = ''SABnzbd_nzo_0001020304050607'', Username = ''u1'',
       Filename = ''dir/file.mkv'', Size = 1000, BytesDownloaded = 1000, Category = ''radarr'',
       Status = StatusCompleted, AddedAt = 5, CompletedAt = 6, Retries = 0, MaxRetries = 3,
       TransferID = []\<rparr> \<and>
   exec New [OpAdd [0,1,2,3,4,5,6,7] 5 ''u1'' ''dir/file.mkv'' 1000 ''radarr'',
             OpUpdateTransfer 6 ''SABnzbd_nzo_0001020304050607'' 1000 StatusCompleted]
     ''SABnzbd_nzo_0001020304050607'' =
     Some \<lparr>Download.ID = ''SABnzbd_nzo_0001020304050607'', Username = ''u1'',
       Filename = ''dir/file.mkv'', Size = 1000, BytesDownloaded = 1000, Category = ''radarr'',
       Status = StatusCompleted, AddedAt = 5, CompletedAt = 6, Retries = 0, MaxRetries = 3,
       TransferID = []\<rparr> \<and>
   map_option CompletedAt
     (exec (exec New [OpAdd [0,1,2,3,4,5,6,7] 5 ''u1'' ''dir/file.mkv'' 1000 ''radarr'',
             OpUpdateTransfer 6 ''SABnzbd_nzo_0001020304050607'' 1000 StatusCompleted])
        [OpUpdateTransfer 7 ''SABnzbd_nzo_0001020304050607'' 0 StatusFailed,
         OpSetTransferID ''SABnzbd_nzo_0001020304050607'' ''t1'']
        ''SABnzbd_nzo_0001020304050607'') = Some 6 \<and>
   map_option CompletedAt
     (apply_op (exec New [OpAdd [0,1,2,3,4,5,6,7] 5 ''u1'' ''dir/file.mkv'' 1000 ''radarr'',
             OpUpdateTransfer 6 ''SABnzbd_nzo_0001020304050607'' 1000 StatusCompleted])
        (OpUpdateTransfer 7 ''SABnzbd_nzo_0001020304050607'' 0 StatusFailed)
        ''SABnzbd_nzo_0001020304050607'') = Some 6"
proof -
  let ?k = "''SABnzbd_nzo_0001020304050607''"
  let ?s1 = "exec New [OpAdd [0,1,2,3,4,5,6,7] 5 ''u1'' ''dir/file.mkv'' 1000 ''radarr'']"
  let ?d1 = "\<lparr>Download.ID = ?k, Username = ''u1'',
       Filename = ''dir/file.mkv'', Size = 1000, BytesDownloaded = 0, Category = ''radarr'',
       Status = StatusQueued, AddedAt = 5, CompletedAt = 0, Retries = 0, MaxRetries = 3,
       TransferID = []\<rparr>"
  let ?s2 = "exec New [OpAdd [0,1,2,3,4,5,6,7] 5 ''u1'' ''dir/file.mkv'' 1000 ''radarr'',
             OpUpdateTransfer 6 ?k 1000 StatusCompleted]"
  let ?d2 = "\<lparr>Download.ID = ?k, Username = ''u1'',
       Filename = ''dir/file.mkv'', Size = 1000, BytesDownloaded = 1000, Category = ''radarr'',
       Status = StatusCompleted, AddedAt = 5, CompletedAt = 6, Retries = 0, MaxRetries = 3,
       TransferID = []\<rparr>"
  let ?ops = "[OpUpdateTransfer 7 ?k 0 StatusFailed, OpSetTransferID ?k ''t1'']"
  let ?x = "OpUpdateTransfer 7 ?k 0 StatusFailed"
  have h0: "New ?k = None" by (simp add: New_def)
  have h1: "?s1 ?k = Some ?d1" by (simp add: example_store_added)
  have h2: "\<not> IsZero 6" by (simp add: IsZero_def)
  have h3: "?s2 ?k = Some ?d2" by (simp add: example_store)
  have h4: "\<not> IsZero (CompletedAt ?d2)" by (simp add: IsZero_def)
  have h5: "\<not> list_ex (replaces ?k) ?ops" "OpIncrementRetry ?k \<notin> set ?ops"
    "\<not> replaces ?k ?x" "\<not> (?x = OpIncrementRetry ?k \<and> snd (IncrementRetry ?s2 ?k))"
    by simp_all
  from UpdateTransfer_spec[where s=New and k="?k" and now=6 and b=1000 and st=StatusCompleted] h0
  have c1: "UpdateTransfer New 6 ?k 1000 StatusCompleted = New" by blast
  from UpdateTransfer_spec[where s="?s1" and k="?k" and dl="?d1" and now=6 and b=1000
      and st=StatusCompleted] h1 h2
  have c2: "UpdateTransfer ?s1 6 ?k 1000 StatusCompleted ?k = Some ?d2"
    by (simp add: IsZero_def)
  from UpdateTransfer_spec[where s="?s2" and k="?k" and dl="?d2" and ops="?ops" and x="?x"]
    h3 h4 h5
  have c4: "map_option CompletedAt (exec ?s2 ?ops ?k) = Some 6"
    and c5: "map_option CompletedAt (apply_op ?s2 ?x ?k) = Some 6"
    by simp_all
  from h0 c1 h1 h2 c2 h3 c4 c5 show ?thesis by blast
qed

subsection \<open>What the operations preserve\<close>

lemma store_inv_New: "store_inv New"
  by (simp add: store_inv_def New_def)

lemma store_inv_apply_op:
  assumes "store_inv s" "valid_op x"
  shows "store_inv (apply_op s x)"
  using assms
  by (cases x)
     (auto simp: store_inv_def Add_def UpdateTransfer_def IncrementRetry_def SetTransferID_def
        Remove_def Let_def known_status_def split: option.splits if_splits)

lemma store_inv_exec:
  "store_inv s \<Longrightarrow> list_all valid_op ops \<Longrightarrow> store_inv (exec s ops)"
  by (induction ops arbitrary: s) (simp_all add: exec_Nil exec_Cons store_inv_apply_op)

lemma set_map_filter: "set (List.map_filter f xs) = {y. \<exists>x \<in> set xs. f x = Some y}"
  by (induction xs) (auto simp: List.map_filter_simps split: option.splits)

lemma set_range_values:
  "iteration_order s ks \<Longrightarrow> set (List.map_filter s ks) = ran s"
  by (auto simp: set_map_filter iteration_order_def ran_def)

lemma distinct_range_values:
  assumes "store_inv s" "distinct ks"
  shows "distinct (List.map_filter s ks)"
  using assms(2)
proof (induction ks)
  case Nil
  then show ?case by (simp add: List.map_filter_simps)
next
  case (Cons k ks)
  show ?case
  proof (cases "s k")
    case None
    then show ?thesis using Cons by (simp add: List.map_filter_simps)
  next
    case (Some d)
    have "d \<notin> set (List.map_filter s ks)"
    proof
      assume "d \<in> set (List.map_filter s ks)"
      then obtain k' where k': "k' \<in> set ks" "s k' = Some d" by (auto simp: set_map_filter)
      with assms(1) Some have "k' = k" by (auto simp: store_inv_def)
      with k' Cons.prems show False by simp
    qed
    then show ?thesis using Cons Some by (simp add: List.map_filter_simps)
  qed
qed

lemma status_consts_distinct:
  "StatusQueued \<noteq> StatusCompleted" "StatusQueued \<noteq> StatusFailed"
  "StatusDownloading \<noteq> StatusCompleted" "StatusDownloading \<noteq> StatusFailed"
  "StatusQueued \<noteq> StatusDownloading" "StatusCompleted \<noteq> StatusFailed"
  by (simp_all add: StatusQueued_def StatusDownloading_def StatusCompleted_def StatusFailed_def)

text \<open>
  C5: in a store built from the empty one by the operations (every status passed to
  \<^verbatim>\<open>UpdateTransfer\<close> being one of the four constants), whatever the order in which the map is
  walked, an entry is in the list of \<^verbatim>\<open>Queue\<close> exactly when its status is Queued or
  Downloading, in the list of \<^verbatim>\<open>History\<close> exactly when its status is Completed or Failed,
  and in exactly one of the two; no entry is listed twice, and the two lists together hold
  the entries of the store and nothing else.
\<close>

theorem queue_history_partition:
  assumes "list_all valid_op ops" and "iteration_order (exec New ops) ks"
    and "exec New ops k = Some dl"
  shows "(dl \<in> set (Queue (exec New ops) ks)) = (Status dl = StatusQueued \<or> Status dl = StatusDownloading)
    \<and> (dl \<in> set (History (exec New ops) ks)) = (Status dl = StatusCompleted \<or> Status dl = StatusFailed)
    \<and> (dl \<in> set (Queue (exec New ops) ks)) = (dl \<notin> set (History (exec New ops) ks))
    \<and> distinct (Queue (exec New ops) ks @ History (exec New ops) ks)
    \<and> set (Queue (exec New ops) ks) \<union> set (History (exec New ops) ks) = ran (exec New ops)"
proof -
  let ?s = "exec New ops"
  have inv: "store_inv ?s" using assms(1) by (simp add: store_inv_exec store_inv_New)
  have mem: "dl \<in> set (List.map_filter ?s ks)"
    using assms(2,3) by (auto simp: set_range_values ran_def)
  have ks: "known_status (Status dl)" using inv assms(3) by (auto simp: store_inv_def)
  have all_known: "\<And>d. d \<in> ran ?s \<Longrightarrow> known_status (Status d)"
    using inv by (auto simp: store_inv_def ran_def)
  have dist: "distinct (List.map_filter ?s ks)"
    using inv assms(2) by (simp add: distinct_range_values iteration_order_def)
  have q: "(dl \<in> set (Queue ?s ks)) = (Status dl = StatusQueued \<or> Status dl = StatusDownloading)"
    using mem by (simp add: Queue_def)
  have h: "(dl \<in> set (History ?s ks)) = (Status dl = StatusCompleted \<or> Status dl = StatusFailed)"
    using mem by (simp add: History_def)
  have x: "(dl \<in> set (Queue ?s ks)) = (dl \<notin> set (History ?s ks))"
    unfolding q h using ks status_consts_distinct by (auto simp: known_status_def)
  have d: "distinct (Queue ?s ks @ History ?s ks)"
    using dist status_consts_distinct by (auto simp: Queue_def History_def)
  have u: "set (Queue ?s ks) \<union> set (History ?s ks) = ran ?s"
    using all_known set_range_values[OF assms(2)]
    by (auto simp: Queue_def History_def known_status_def)
  from q h x d u show ?thesis by blast
qed

theorem queue_history_partition_witness:
  "list_all valid_op
     [OpAdd [0,1,2,3,4,5,6,7] 5 ''u1'' ''dir/file.mkv'' 1000 ''radarr'',
      OpUpdateTransfer 6 ''SABnzbd_nzo_0001020304050607'' 1000 StatusCompleted] \<and>
   iteration_order
     (exec New [OpAdd [0,1,2,3,4,5,6,7] 5 ''u1'' ''dir/file.mkv'' 1000 ''radarr'',
                OpUpdateTransfer 6 ''SABnzbd_nzo_0001020304050607'' 1000 StatusCompleted])
     [''SABnzbd_nzo_0001020304050607''] \<and>
   exec New [OpAdd [0,1,2,3,4,5,6,7] 5 ''u1'' ''dir/file.mkv'' 1000 ''radarr'',
             OpUpdateTransfer 6 ''SABnzbd_nzo_0001020304050607'' 1000 StatusCompleted]
     ''SABnzbd_nzo_0001020304050607'' =
     Some \<lparr>Download.ID = ''SABnzbd_nzo_0001020304050607'', Username = ''u1'',
       Filename = ''dir/file.mkv'', Size = 1000, BytesDownloaded = 1000, Category = ''radarr'',
       Status = StatusCompleted, AddedAt = 5, CompletedAt = 6, Retries = 0, MaxRetries = 3,
       TransferID = []\<rparr> \<and>
   \<lparr>Download.ID = ''SABnzbd_nzo_0001020304050607'', Username = ''u1'',
       Filename = ''dir/file.mkv'', Size = 1000, BytesDownloaded = 1000, Category = ''radarr'',
       Status = StatusCompleted, AddedAt = 5, CompletedAt = 6, Retries = 0, MaxRetries = 3,
       TransferID = []\<rparr>
     \<in> set (History
       (exec New [OpAdd [0,1,2,3,4,5,6,7] 5 ''u1'' ''dir/file.mkv'' 1000 ''radarr'',
                  OpUpdateTransfer 6 ''SABnzbd_nzo_0001020304050607'' 1000 StatusCompleted])
       [''SABnzbd_nzo_0001020304050607'']) \<and>
   \<lparr>Download.ID = ''SABnzbd_nzo_0001020304050607'', Username = ''u1'',
       Filename = ''dir/file.mkv'', Size = 1000, BytesDownloaded = 1000, Category = ''radarr'',
       Status = StatusCompleted, AddedAt = 5, CompletedAt = 6, Retries = 0, MaxRetries = 3,
       TransferID = []\<rparr>
     \<notin> set (Queue
       (exec New [OpAdd [0,1,2,3,4,5,6,7] 5 ''u1'' ''dir/file.mkv'' 1000 ''radarr'',
                  OpUpdateTransfer 6 ''SABnzbd_nzo_0001020304050607'' 1000 StatusCompleted])
       [''SABnzbd_nzo_0001020304050607''])"
proof -
  let ?k = "''SABnzbd_nzo_0001020304050607''"
  let ?ops = "[OpAdd [0,1,2,3,4,5,6,7] 5 ''u1'' ''dir/file.mkv'' 1000 ''radarr'',
               OpUpdateTransfer 6 ?k 1000 StatusCompleted]"
  let ?dl = "\<lparr>Download.ID = ?k, Username = ''u1'',
       Filename = ''dir/file.mkv'', Size = 1000, BytesDownloaded = 1000, Category = ''radarr'',
       Status = StatusCompleted, AddedAt = 5, CompletedAt = 6, Retries = 0, MaxRetries = 3,
       TransferID = []\<rparr>"
  have h1: "list_all valid_op ?ops" by (simp add: known_status_def)
  have h2: "iteration_order (exec New ?ops) [?k]"
    by (simp add: example_store iteration_order_def)
  have h3: "exec New ?ops ?k = Some ?dl" by (simp add: example_store)
  note r = queue_history_partition[OF h1 h2 h3]
  from r have m: "?dl \<in> set (History (exec New ?ops) [?k])" by simp
  from r m have "?dl \<notin> set (Queue (exec New ?ops) [?k])" by blast
  with m h1 h2 h3 show ?thesis by blast
qed

subsection \<open>How a status moves\<close>

lemma apply_op_Status:
  assumes "s k = Some dl" "apply_op s x k = Some dl'"
  shows "Status dl' =
     (case x of
        OpAdd rnd now username filename sz category \<Rightarrow>
          if generateID rnd = k then StatusQueued else Status dl
      | OpUpdateTransfer now ident b st \<Rightarrow> if ident = k then st else Status dl
      | OpIncrementRetry ident \<Rightarrow>
          if ident = k \<and> snd (IncrementRetry s ident) then StatusQueued else Status dl
      | OpSetTransferID ident transferID \<Rightarrow> Status dl
      | OpRemove ident \<Rightarrow> Status dl)"
  using assms
  by (cases x)
     (auto simp: Add_def UpdateTransfer_def IncrementRetry_def SetTransferID_def
        Remove_def Let_def split: option.splits if_splits)

text \<open>
  C4, as the code has it: in a store built from the empty one by the operations (every
  status passed to \<^verbatim>\<open>UpdateTransfer\<close> being one of the four constants) the status of an
  entry is one of the four constants, and one operation changes the status of an entry
  that is still stored afterwards only in these ways: \<^verbatim>\<open>UpdateTransfer\<close> on its id sets
  the status it is given, whatever the status was; an allowed \<^verbatim>\<open>IncrementRetry\<close> on its
  id sets Queued; an \<^verbatim>\<open>Add\<close> that generates its id stores a new Queued entry in its place.
\<close>

theorem status_moves:
  assumes "list_all valid_op ops" and "exec New ops k = Some dl" and "valid_op x"
    and "apply_op (exec New ops) x k = Some dl'"
  shows "known_status (Status dl) \<and> known_status (Status dl') \<and>
     Status dl' =
     (case x of
        OpAdd rnd now username filename sz category \<Rightarrow>
          if generateID rnd = k then StatusQueued else Status dl
      | OpUpdateTransfer now ident b st \<Rightarrow> if ident = k then st else Status dl
      | OpIncrementRetry ident \<Rightarrow>
          if ident = k \<and> snd (IncrementRetry (exec New ops) ident) then StatusQueued else Status dl
      | OpSetTransferID ident transferID \<Rightarrow> Status dl
      | OpRemove ident \<Rightarrow> Status dl)"
proof -
  have inv: "store_inv (exec New ops)" using assms(1) by (simp add: store_inv_exec store_inv_New)
  then have inv': "store_inv (apply_op (exec New ops) x)" using assms(3) by (rule store_inv_apply_op)
  from inv assms(2) have "known_status (Status dl)" by (auto simp: store_inv_def)
  moreover from inv' assms(4) have "known_status (Status dl')" by (auto simp: store_inv_def)
  ultimately show ?thesis using apply_op_Status[OF assms(2) assms(4)] by simp
qed

theorem status_moves_witness:
  "list_all valid_op
     [OpAdd [0,1,2,3,4,5,6,7] 5 ''u1'' ''dir/file.mkv'' 1000 ''radarr'',
      OpUpdateTransfer 6 ''SABnzbd_nzo_0001020304050607'' 1000 StatusCompleted] \<and>
   exec New [OpAdd [0,1,2,3,4,5,6,7] 5 ''u1'' ''dir/file.mkv'' 1000 ''radarr'',
             OpUpdateTransfer 6 ''SABnzbd_nzo_0001020304050607'' 1000 StatusCompleted]
     ''SABnzbd_nzo_0001020304050607'' =
     Some \<lparr>Download.ID = ''SABnzbd_nzo_0001020304050607'', Username = ''u1'',
       Filename = ''dir/file.mkv'', Size = 1000, BytesDownloaded = 1000, Category = ''radarr'',
       Status = StatusCompleted, AddedAt = 5, CompletedAt = 6, Retries = 0, MaxRetries = 3,
       TransferID = []\<rparr> \<and>
   valid_op (OpUpdateTransfer 7 ''SABnzbd_nzo_0001020304050607'' 0 StatusDownloading) \<and>
   apply_op
     (exec New [OpAdd [0,1,2,3,4,5,6,7] 5 ''u1'' ''dir/file.mkv'' 1000 ''radarr'',
                OpUpdateTransfer 6 ''SABnzbd_nzo_0001020304050607'' 1000 StatusCompleted])
     (OpUpdateTransfer 7 ''SABnzbd_nzo_0001020304050607'' 0 StatusDownloading)
     ''SABnzbd_nzo_0001020304050607'' =
     Some \<lparr>Download.ID = ''SABnzbd_nzo_0001020304050607'', Username = ''u1'',
       Filename = ''dir/file.mkv'', Size = 1000, BytesDownloaded = 0, Category = ''radarr'',
       Status = StatusDownloading, AddedAt = 5, CompletedAt = 6, Retries = 0, MaxRetries = 3,
       TransferID = []\<rparr> \<and>
   known_status StatusCompleted \<and> known_status StatusDownloading"
proof -
  let ?k = "''SABnzbd_nzo_0001020304050607''"
  let ?ops = "[OpAdd [0,1,2,3,4,5,6,7] 5 ''u1'' ''dir/file.mkv'' 1000 ''radarr'',
             OpUpdateTransfer 6 ?k 1000 StatusCompleted]"
  let ?d2 = "\<lparr>Download.ID = ?k, Username = ''u1'',
       Filename = ''dir/file.mkv'', Size = 1000, BytesDownloaded = 1000, Category = ''radarr'',
       Status = StatusCompleted, AddedAt = 5, CompletedAt = 6, Retries = 0, MaxRetries = 3,
       TransferID = []\<rparr>"
  let ?d3 = "\<lparr>Download.ID = ?k, Username = ''u1'',
       Filename = ''dir/file.mkv'', Size = 1000, BytesDownloaded = 0, Category = ''radarr'',
       Status = StatusDownloading, AddedAt = 5, CompletedAt = 6, Retries = 0, MaxRetries = 3,
       TransferID = []\<rparr>"
  let ?x = "OpUpdateTransfer 7 ?k 0 StatusDownloading"
  have h1: "list_all valid_op ?ops" by (simp add: known_status_def)
  have h2: "exec New ?ops ?k = Some ?d2" by (simp add: example_store)
  have h3: "valid_op ?x" by (simp add: known_status_def)
  have h4: "apply_op (exec New ?ops) ?x ?k = Some ?d3"
    by (simp add: example_store UpdateTransfer_def Let_def IsZero_def)
  from status_moves[OF h1 h2 h3 h4]
  have "known_status StatusCompleted \<and> known_status StatusDownloading" by simp
  with h1 h2 h3 h4 show ?thesis by blast
qed

text \<open>
  C4 as stated fails: after \<^verbatim>\<open>Add\<close> and an update to Completed, an update with the status
  Downloading moves the entry out of its terminal state, with no retry.
\<close>

theorem status_moves_counterexample:
  "map_option Status
     (exec New [OpAdd [0,1,2,3,4,5,6,7] 5 ''u1'' ''dir/file.mkv'' 1000 ''radarr'',
                OpUpdateTransfer 6 ''SABnzbd_nzo_0001020304050607'' 1000 StatusCompleted]
       ''SABnzbd_nzo_0001020304050607'') = Some StatusCompleted \<and>
   map_option Status
     (exec New [OpAdd [0,1,2,3,4,5,6,7] 5 ''u1'' ''dir/file.mkv'' 1000 ''radarr'',
                OpUpdateTransfer 6 ''SABnzbd_nzo_0001020304050607'' 1000 StatusCompleted,
                OpUpdateTransfer 7 ''SABnzbd_nzo_0001020304050607'' 0 StatusDownloading]
       ''SABnzbd_nzo_0001020304050607'') = Some StatusDownloading"
  by (simp add: exec_def New_def Add_def Let_def UpdateTransfer_def generateID_def
      hexEncodeToString_def hexdigit_def)

section \<open>Properties of the reconciliation pass\<close>

lemma Contains_iff: "Contains s substr = is_substring substr s"
proof (induction s)
  case Nil
  then show ?case by (auto simp: is_substring_def)
next
  case (Cons c cs)
  show ?case
  proof
    assume "Contains (c # cs) substr"
    then consider "take (length substr) (c # cs) = substr" | "Contains cs substr" by auto
    then show "is_substring substr (c # cs)"
    proof cases
      case 1
      then have "c # cs = [] @ substr @ drop (length substr) (c # cs)"
        by (metis append_Nil append_take_drop_id)
      then show ?thesis unfolding is_substring_def by blast
    next
      case 2
      with Cons obtain ps ss where "cs = ps @ substr @ ss" by (auto simp: is_substring_def)
      then have "c # cs = (c # ps) @ substr @ ss" by simp
      then show ?thesis unfolding is_substring_def by blast
    qed
  next
    assume "is_substring substr (c # cs)"
    then obtain ps ss where eq: "c # cs = ps @ substr @ ss" by (auto simp: is_substring_def)
    show "Contains (c # cs) substr"
    proof (cases ps)
      case Nil
      with eq have "take (length substr) (c # cs) = substr" by simp
      then show ?thesis by simp
    next
      case (Cons p ps')
      with eq have "cs = ps' @ substr @ ss" by simp
      then have "is_substring substr cs" unfolding is_substring_def by blast
      with Cons.IH show ?thesis by simp
    qed
  qed
qed

text \<open>
  C6: the status that the pass computes from the state string of the backend: Completed
  when the string contains "Completed" and "Succeeded"; otherwise Failed when it contains
  "Completed"; otherwise Downloading when it contains "InProgress"; otherwise Queued.
\<close>

theorem newStatus_rules:
  "newStatus st =
     (if is_substring ''Completed'' st \<and> is_substring ''Succeeded'' st then StatusCompleted
      else if is_substring ''Completed'' st then StatusFailed
      else if is_substring ''InProgress'' st then StatusDownloading
      else StatusQueued)"
  by (simp add: newStatus_def Contains_iff)

lemma dom_files:
  "dom (foldl (\<lambda>m t. m((u, Transfer.Filename t) \<mapsto> t)) m fs) =
     dom m \<union> (\<lambda>t. (u, Transfer.Filename t)) ` set fs"
  by (induction fs arbitrary: m) auto

lemma dom_dirs:
  "dom (foldl (\<lambda>m d. foldl (\<lambda>m t. m((u, Transfer.Filename t) \<mapsto> t)) m (Files d)) m ds) =
     dom m \<union> (\<lambda>t. (u, Transfer.Filename t)) ` (\<Union>d \<in> set ds. set (Files d))"
  by (induction ds arbitrary: m) (auto simp: dom_files)

lemma dom_groups:
  "dom (foldl (\<lambda>m g. foldl (\<lambda>m d.
           foldl (\<lambda>m t. m((UserTransferGroup.Username g, Transfer.Filename t) \<mapsto> t)) m (Files d))
          m (Directories g)) m gs) =
     dom m \<union> (\<Union>g \<in> set gs. (\<lambda>t. (UserTransferGroup.Username g, Transfer.Filename t)) `
                  (\<Union>d \<in> set (Directories g). set (Files d)))"
  by (induction gs arbitrary: m) (auto simp: dom_dirs)

lemma set_snapshot_files:
  "set (snapshot_files groups) =
     (\<Union>g \<in> set groups. (\<lambda>t. (UserTransferGroup.Username g, t)) `
                  (\<Union>d \<in> set (Directories g). set (Files d)))"
  by (auto simp: snapshot_files_def)

lemma in_dom_transfers:
  "((u, f) \<in> dom (transfers groups)) =
     (\<exists>g \<in> set groups. \<exists>d \<in> set (Directories g). \<exists>t \<in> set (Files d).
        UserTransferGroup.Username g = u \<and> Transfer.Filename t = f)"
  unfolding transfers_def dom_groups by (simp add: image_iff) blast

lemma has_match_iff:
  "has_match groups dl =
     (\<exists>g \<in> set groups. \<exists>d \<in> set (Directories g). \<exists>t \<in> set (Files d).
        UserTransferGroup.Username g = Download.Username dl \<and>
        Transfer.Filename t = Download.Filename dl)"
  unfolding has_match_def list_ex_iff set_snapshot_files by (simp add: image_iff)

lemma transfers_None_iff:
  "(transfers groups (Download.Username dl, Download.Filename dl) = None) = (\<not> has_match groups dl)"
proof -
  have "(transfers groups (Download.Username dl, Download.Filename dl) = None) =
        ((Download.Username dl, Download.Filename dl) \<notin> dom (transfers groups))" by auto
  also have "\<dots> = (\<not> has_match groups dl)"
    by (simp only: in_dom_transfers has_match_iff)
  finally show ?thesis .
qed

lemma store_inv_keyed: "store_inv s \<Longrightarrow> keyed s"
  by (auto simp: store_inv_def keyed_def)

lemma keyed_exec: "list_all valid_op ops \<Longrightarrow> keyed (exec New ops)"
  by (simp add: store_inv_keyed store_inv_exec store_inv_New)

lemma sync_entry_other:
  "Download.ID dl' \<noteq> k \<Longrightarrow> sync_entry tr now dl' s k = s k"
  by (simp add: sync_entry_def UpdateTransfer_def Let_def split: option.splits)

lemma sync_entry_skip:
  "Status dl = StatusCompleted \<or> Status dl = StatusFailed \<or>
     tr (Download.Username dl, Download.Filename dl) = None \<Longrightarrow> sync_entry tr now dl s = s"
  by (auto simp: sync_entry_def)

lemma sync_entries_frame:
  assumes "\<forall>dl' \<in> set dls. Download.ID dl' = k \<longrightarrow> dl' = dl"
    and "Status dl = StatusCompleted \<or> Status dl = StatusFailed \<or>
     tr (Download.Username dl, Download.Filename dl) = None"
  shows "sync_entries tr clock n dls s k = s k"
  using assms(1)
proof (induction dls arbitrary: s n)
  case Nil
  then show ?case by simp
next
  case (Cons d dls)
  have "sync_entry tr (clock n) d s k = s k"
  proof (cases "Download.ID d = k")
    case True
    with Cons.prems have "d = dl" by simp
    with assms(2) show ?thesis by (simp add: sync_entry_skip)
  next
    case False
    then show ?thesis by (rule sync_entry_other)
  qed
  with Cons show ?case by simp
qed

lemma All_keyed:
  assumes "keyed s" "d \<in> set (All_store s ks)"
  shows "s (Download.ID d) = Some d"
  using assms by (auto simp: All_store_def set_map_filter keyed_def)

text \<open>
  C7: in a store whose entries are stored under their own ids, one pass leaves an entry as
  it is, field by field, when its status is Completed or Failed, and when no file of the
  snapshot has its user name and file name; and a pass whose fetch failed leaves the whole
  store as it is.
\<close>

theorem syncOnce_frame:
  assumes "keyed s" and "s k = Some dl"
    and "Status dl = StatusCompleted \<or> Status dl = StatusFailed \<or> \<not> has_match groups dl"
  shows "syncOnce s ks clock (Inr groups) k = Some dl \<and> syncOnce s ks clock (Inl err) = s"
proof -
  have a: "\<forall>dl' \<in> set (All_store s ks). Download.ID dl' = k \<longrightarrow> dl' = dl"
    using All_keyed[OF assms(1)] assms(2) by auto
  have b: "Status dl = StatusCompleted \<or> Status dl = StatusFailed \<or>
     transfers groups (Download.Username dl, Download.Filename dl) = None"
    using assms(3) by (simp add: transfers_None_iff)
  show ?thesis
    using sync_entries_frame[of "All_store s ks" k dl "transfers groups" clock 0 s] a b assms(2)
    by (simp add: syncOnce_def)
qed

theorem syncOnce_frame_witness:
  "keyed (exec New [OpAdd [0,1,2,3,4,5,6,7] 5 ''u1'' ''dir/file.mkv'' 1000 ''radarr'',
                    OpUpdateTransfer 6 ''SABnzbd_nzo_0001020304050607'' 1000 StatusCompleted]) \<and>
   exec New [OpAdd [0,1,2,3,4,5,6,7] 5 ''u1'' ''dir/file.mkv'' 1000 ''radarr'',
             OpUpdateTransfer 6 ''SABnzbd_nzo_0001020304050607'' 1000 StatusCompleted]
     ''SABnzbd_nzo_0001020304050607'' =
     Some \<lparr>Download.ID = ''SABnzbd_nzo_0001020304050607'', Username = ''u1'',
       Filename = ''dir/file.mkv'', Size = 1000, BytesDownloaded = 1000, Category = ''radarr'',
       Status = StatusCompleted, AddedAt = 5, CompletedAt = 6, Retries = 0, MaxRetries = 3,
       TransferID = []\<rparr> \<and>
   syncOnce
     (exec New [OpAdd [0,1,2,3,4,5,6,7] 5 ''u1'' ''dir/file.mkv'' 1000 ''radarr'',
                OpUpdateTransfer 6 ''SABnzbd_nzo_0001020304050607'' 1000 StatusCompleted])
     [''SABnzbd_nzo_0001020304050607''] (\<lambda>n. 7)
     (Inr [\<lparr>UserTransferGroup.Username = ''u1'', Directories =
            [\<lparr>Directory = ''dir'', Files =
               [\<lparr>Transfer.ID = ''t1'', Username = ''u1'', Direction = ''Download'',
                 Filename = ''dir/file.mkv'', Size = 1000, BytesTransferred = 400,
                 State = ''InProgress''\<rparr>]\<rparr>]\<rparr>])
     ''SABnzbd_nzo_0001020304050607'' =
     Some \<lparr>Download.ID = ''SABnzbd_nzo_0001020304050607'', Username = ''u1'',
       Filename = ''dir/file.mkv'', Size = 1000, BytesDownloaded = 1000, Category = ''radarr'',
       Status = StatusCompleted, AddedAt = 5, CompletedAt = 6, Retries = 0, MaxRetries = 3,
       TransferID = []\<rparr>"
proof -
  let ?k = "''SABnzbd_nzo_0001020304050607''"
  let ?ops = "[OpAdd [0,1,2,3,4,5,6,7] 5 ''u1'' ''dir/file.mkv'' 1000 ''radarr'',
               OpUpdateTransfer 6 ?k 1000 StatusCompleted]"
  let ?dl = "\<lparr>Download.ID = ?k, Username = ''u1'',
       Filename = ''dir/file.mkv'', Size = 1000, BytesDownloaded = 1000, Category = ''radarr'',
       Status = StatusCompleted, AddedAt = 5, CompletedAt = 6, Retries = 0, MaxRetries = 3,
       TransferID = []\<rparr>"
  have h1: "keyed (exec New ?ops)" by (simp add: example_store keyed_def)
  have h2: "exec New ?ops ?k = Some ?dl" by (simp add: example_store)
  have h3: "Status ?dl = StatusCompleted" by simp
  from syncOnce_frame[OF h1 h2, of _ "[?k]" "\<lambda>n. 7" undefined] h3 h1 h2
  show ?thesis by blast
qed

end
